theory Spec2Isabelle
  imports Complex_Main
begin

section \<open>The guide retrieval tool of the Steam server: \<open>fetch_steam_guide\<close>\<close>

text \<open>
  The development follows \<open>fetch_steam_guide\<close> of \<open>server.py\<close>. A Python string is a
  \<^typ>\<open>string\<close>, one \<^typ>\<open>char\<close> standing for one character of the source string, so that
  \<^const>\<open>length\<close> is Python's \<open>len\<close>. A raised exception is a value on the left of a sum.
  A distance is the exact value of the floating-point number the index returns, a
  \<^typ>\<open>rat\<close>.
\<close>

subsection \<open>Data\<close>

text \<open>
  A raised exception: an instance of \<open>Exception\<close>, with the text \<open>str(e)\<close> it prints, or an
  instance of \<open>BaseException\<close> that is not one of \<open>Exception\<close> (\<open>KeyboardInterrupt\<close>,
  \<open>SystemExit\<close>), with the name of its class.
\<close>

datatype exn = Exception string | BaseException string

text \<open>
  One \<open>div.subSection.detailBox\<close> of the page: the stripped text of its title and of its
  description, each \<open>None\<close> when the markup lacks the element.
\<close>

record box =
  subSectionTitle :: "string option"
  subSectionDesc :: "string option"

text \<open>
  What the tool does that a caller can observe besides its result: the calls of the embedding
  model and of the index, and the line written to standard error.
\<close>

datatype event =
    Encode "string list"
  | IndexAdd nat
  | IndexSearch nat
  | Stderr string

text \<open>
  The embedding model \<open>_embedding_model.encode\<close>: from the state of the process and a batch of
  texts to the vectors (or the exception) and the state after the call.
\<close>

type_synonym ('w, 'v) encoder = "'w \<Rightarrow> string list \<Rightarrow> (exn + 'v list) \<times> 'w"

text \<open>
  The module \<open>faiss\<close> when its import succeeded: \<open>IndexFlatL2(dim)\<close> followed by \<open>add\<close> gives an
  index, and \<open>search\<close> gives the row of distances and the row of labels for one query.
\<close>

record ('v, 'i) faiss_module =
  IndexFlatL2_add :: "'v list \<Rightarrow> exn + 'i"
  IndexFlatL2_search :: "'i \<Rightarrow> 'v \<Rightarrow> nat \<Rightarrow> exn + rat list \<times> int list"

text \<open>The state a call runs in: the calls made so far and the state of the embedding model.\<close>

record 'w run =
  calls :: "event list"
  world :: 'w

type_synonym ('w, 'a) action = "'w run \<Rightarrow> (exn + 'a) \<times> 'w run"

subsection \<open>Python primitives\<close>

definition threshold_chars :: nat where
  "threshold_chars = 20000"

definition top_k :: nat where
  "top_k = 5"

text \<open>\<open>sep.join(xs)\<close>\<close>

fun join :: "string \<Rightarrow> string list \<Rightarrow> string" where
  "join sep [] = []"
| "join sep [x] = x"
| "join sep (x # y # ys) = x @ sep @ join sep (y # ys)"

text \<open>
  \<open>xs[i]\<close> on a list of length \<open>n\<close>: positions \<open>0\<close> to \<open>n - 1\<close> are read directly,
  \<open>-n\<close> to \<open>-1\<close> are read from the end, anything else raises \<open>IndexError\<close>.
\<close>

definition getitem :: "'a list \<Rightarrow> int \<Rightarrow> exn + 'a" where
  "getitem xs i =
     (if 0 \<le> i \<and> i < int (length xs) then Inr (xs ! nat i)
      else if i < 0 \<and> - int (length xs) \<le> i then Inr (xs ! nat (int (length xs) + i))
      else Inl (Exception ''list index out of range''))"

text \<open>The decimal digits of a natural number.\<close>

definition digit :: "nat \<Rightarrow> char" where
  "digit k = ''0123456789'' ! k"

fun digits :: "nat \<Rightarrow> string" where
  "digits n = (if n < 10 then [digit n] else digits (n div 10) @ [digit (n mod 10)])"

declare digits.simps [simp del]

text \<open>Rounding to the nearest integer, a tie going to the even neighbour.\<close>

definition round_half_even :: "rat \<Rightarrow> int" where
  "round_half_even x =
     (let f = \<lfloor>x\<rfloor>; r = x - of_int f
      in if r < 1 / 2 then f
         else if 1 / 2 < r then f + 1
         else if even f then f else f + 1)"

text \<open>\<open>f"{dist:.2f}"\<close> for a finite number: sign, integer part, point, two digits.\<close>

definition format_2f :: "rat \<Rightarrow> string" where
  "format_2f d =
     (let n = nat (round_half_even (\<bar>d\<bar> * 100))
      in (if d < 0 then ''-'' else '''') @ digits (n div 100) @ ''.''
         @ [digit ((n mod 100) div 10), digit (n mod 10)])"

subsection \<open>The tool\<close>

text \<open>The text of one section: the title line, if there is a title, then the body.\<close>

definition section_text :: "box \<Rightarrow> string" where
  "section_text b =
     (case subSectionTitle b of Some t \<Rightarrow> t @ ''\<newline>'' | None \<Rightarrow> '''')
     @ (case subSectionDesc b of Some d \<Rightarrow> d | None \<Rightarrow> '''')"

definition full_text :: "string list \<Rightarrow> string" where
  "full_text sections = join ''\<newline>\<newline>'' sections"

text \<open>Sequencing inside the \<open>try\<close> block: the first exception ends the block.\<close>

definition bind_try :: "('w, 'a) action \<Rightarrow> ('a \<Rightarrow> ('w, 'b) action) \<Rightarrow> ('w, 'b) action" where
  "bind_try m f s = (case m s of (Inl e, s') \<Rightarrow> (Inl e, s') | (Inr a, s') \<Rightarrow> f a s')"

definition return_try :: "'a \<Rightarrow> ('w, 'a) action" where
  "return_try a s = (Inr a, s)"

definition encode :: "('w, 'v) encoder \<Rightarrow> string list \<Rightarrow> ('w, 'v list) action" where
  "encode model texts s =
     (case model (world s) texts of
        (r, w') \<Rightarrow> (r, s\<lparr>calls := calls s @ [Encode texts], world := w'\<rparr>))"

definition index_add :: "('v, 'i) faiss_module \<Rightarrow> 'v list \<Rightarrow> ('w, 'i) action" where
  "index_add fm embeddings s =
     (IndexFlatL2_add fm embeddings, s\<lparr>calls := calls s @ [IndexAdd (length embeddings)]\<rparr>)"

definition index_search ::
  "('v, 'i) faiss_module \<Rightarrow> 'i \<Rightarrow> 'v \<Rightarrow> nat \<Rightarrow> ('w, rat list \<times> int list) action" where
  "index_search fm index q k s =
     (IndexFlatL2_search fm index q k, s\<lparr>calls := calls s @ [IndexSearch k]\<rparr>)"

text \<open>\<open>encode([query])[0]\<close>: the first row of the array.\<close>

definition first_row :: "'v list \<Rightarrow> ('w, 'v) action" where
  "first_row rows s =
     (case rows of
        [] \<Rightarrow> (Inl (Exception ''index 0 is out of bounds for axis 0 with size 0''), s)
      | v # _ \<Rightarrow> (Inr v, s))"

text \<open>One entry of the answer: \<open>f"[Score: {dist:.2f}]\n{sections[idx]}"\<close>.\<close>

definition result_entry :: "rat \<Rightarrow> string \<Rightarrow> string" where
  "result_entry distance text = ''[Score: '' @ format_2f distance @ '']\<newline>'' @ text"

text \<open>The loop over \<open>zip(distances[0], indices[0])\<close> that collects the top sections.\<close>

fun collect_results :: "string list \<Rightarrow> (rat \<times> int) list \<Rightarrow> exn + string list" where
  "collect_results sections [] = Inr []"
| "collect_results sections ((distance, idx) # rest) =
     (case getitem sections idx of
        Inl e \<Rightarrow> Inl e
      | Inr text \<Rightarrow>
          (case collect_results sections rest of
             Inl e \<Rightarrow> Inl e
           | Inr results \<Rightarrow> Inr (result_entry distance text # results)))"

definition collect :: "string list \<Rightarrow> rat list \<times> int list \<Rightarrow> ('w, string list) action" where
  "collect sections found s =
     (collect_results sections (zip (fst found) (snd found)), s)"

text \<open>The part of the \<open>try\<close> block after the test of \<open>faiss\<close>: embed, index, search, format.\<close>

definition search_sections ::
  "('w, 'v) encoder \<Rightarrow> ('v, 'i) faiss_module \<Rightarrow> string list \<Rightarrow> string \<Rightarrow> ('w, string) action"
  where
  "search_sections model fm sections query =
     bind_try (encode model sections) (\<lambda>embeddings.
     bind_try (index_add fm embeddings) (\<lambda>index.
     bind_try (encode model [query]) (\<lambda>q_rows.
     bind_try (first_row q_rows) (\<lambda>q_emb.
     bind_try (index_search fm index q_emb top_k) (\<lambda>found.
     bind_try (collect sections found) (\<lambda>results.
     return_try (join ''\<newline>\<newline>---\<newline>\<newline>'' results)))))))"

definition faiss_missing :: string where
  "faiss_missing =
     ''Error: FAISS library is required for large-guide search but is not installed.''"

text \<open>
  The \<open>try\<close> block. The argument \<open>page\<close> is what fetching and parsing the guide page gives:
  an exception of the request, or the boxes of the container \<open>div.guide.subSections\<close>,
  \<open>None\<close> when the page has no such container.
\<close>

definition try_block ::
  "('w, 'v) encoder \<Rightarrow> ('v, 'i) faiss_module option \<Rightarrow> exn + box list option
     \<Rightarrow> string \<Rightarrow> string \<Rightarrow> ('w, string) action" where
  "try_block model faiss page guide_id query =
     (case page of
        Inl e \<Rightarrow> (\<lambda>s. (Inl e, s))
      | Inr None \<Rightarrow>
          return_try (''Info: No subsections found for guide ID '' @ guide_id @ ''.'')
      | Inr (Some boxes) \<Rightarrow>
          (let sections = map section_text boxes
           in if length (full_text sections) \<le> threshold_chars
              then return_try (full_text sections)
              else (case faiss of
                      None \<Rightarrow> return_try faiss_missing
                    | Some fm \<Rightarrow> search_sections model fm sections query)))"

text \<open>
  The tool: the \<open>try\<close> block and its handler \<open>except Exception\<close>, which writes a line to
  standard error and returns the text of the error. The handler does not match an exception
  that is no instance of \<open>Exception\<close>: it leaves the tool, on the left of the result.
\<close>

definition fetch_steam_guide ::
  "('w, 'v) encoder \<Rightarrow> ('v, 'i) faiss_module option \<Rightarrow> exn + box list option
     \<Rightarrow> string \<Rightarrow> string \<Rightarrow> 'w run \<Rightarrow> (exn + string) \<times> 'w run" where
  "fetch_steam_guide model faiss page guide_id query s =
     (case try_block model faiss page guide_id query s of
        (Inr text, s') \<Rightarrow> (Inr text, s')
      | (Inl (Exception e), s') \<Rightarrow>
          (Inr (''Error fetching guide: '' @ e),
           s'\<lparr>calls := calls s' @ [Stderr (''Error in fetch_steam_guide: '' @ e)]\<rparr>)
      | (Inl (BaseException c), s') \<Rightarrow> (Inl (BaseException c), s'))"

subsection \<open>The flat index of the library\<close>

text \<open>
  \<open>faiss\<close> is a library the server imports. Its \<open>IndexFlatL2\<close> keeps the vectors in the order
  they were added, labelled from 0. A search for \<open>k\<close> neighbours keeps, in a heap ordered by
  distance and then label, the \<open>k\<close> nearest vectors whose distance is below the largest
  single-precision number, and returns them by increasing distance; when it has fewer than
  \<open>k\<close> of them, the rows are filled up with that largest number and the label \<open>-1\<close>.
  The argument \<open>l2sqr\<close> is the squared distance as the library computes it.
\<close>

definition FLT_MAX :: rat where
  "FLT_MAX = 340282346638528859811704183484516925440"

definition knn_L2sqr :: "('v \<Rightarrow> 'v \<Rightarrow> rat) \<Rightarrow> 'v list \<Rightarrow> 'v \<Rightarrow> nat \<Rightarrow> (rat \<times> int) list" where
  "knn_L2sqr l2sqr xb q k =
     (let cand = filter (\<lambda>(d, i). d < FLT_MAX)
                   (zip (map (l2sqr q) xb) (map int [0..<length xb]));
          best = take k (sort_key fst cand)
      in best @ replicate (k - length best) (FLT_MAX, - 1))"

definition faiss_flat :: "('v \<Rightarrow> 'v \<Rightarrow> rat) \<Rightarrow> ('v, 'v list) faiss_module" where
  "faiss_flat l2sqr =
     \<lparr>IndexFlatL2_add = (\<lambda>embeddings. Inr embeddings),
      IndexFlatL2_search = (\<lambda>xb q k.
        let found = knn_L2sqr l2sqr xb q k in Inr (map fst found, map snd found))\<rparr>"

subsection \<open>Notions used in the statements\<close>

text \<open>The order of the heap of the flat index: by distance, then by label.\<close>

definition ranked_before :: "rat \<times> int \<Rightarrow> rat \<times> int \<Rightarrow> bool" where
  "ranked_before a b = (fst a < fst b \<or> (fst a = fst b \<and> snd a < snd b))"

text \<open>An embedding model is deterministic when its vectors do not depend on the state.\<close>

definition deterministic :: "('w, 'v) encoder \<Rightarrow> bool" where
  "deterministic model = (\<forall>w w' texts. fst (model w texts) = fst (model w' texts))"

text \<open>
  The contract of \<open>encode\<close> that the tool relies on: a call that succeeds returns an array
  with one row for each text of the batch.
\<close>

definition row_per_text :: "('w, 'v) encoder \<Rightarrow> bool" where
  "row_per_text model =
     (\<forall>w texts rows w'. model w texts = (Inr rows, w') \<longrightarrow> length rows = length texts)"

subsection \<open>A small instance\<close>

text \<open>
  An embedding model that maps a text to its length, at most 64, and counts its calls, one that
  always fails, the squared difference as distance, and a state with no calls made. All the
  numbers of the instance are small integers, which single precision represents exactly.
\<close>

definition length_model :: "(nat, rat) encoder" where
  "length_model w texts = (Inr (map (\<lambda>t. of_nat (min (length t) 64)) texts), Suc w)"

definition failing_model :: "(nat, rat) encoder" where
  "failing_model w texts = (Inl (Exception ''model not loaded''), Suc w)"

definition sq_diff :: "rat \<Rightarrow> rat \<Rightarrow> rat" where
  "sq_diff a b = (a - b)\<^sup>2"

definition start :: "nat run" where
  "start = \<lparr>calls = [], world = 0\<rparr>"

definition plain :: "string \<Rightarrow> box" where
  "plain text = \<lparr>subSectionTitle = None, subSectionDesc = Some text\<rparr>"

definition long_text :: string where
  "long_text = replicate 20001 CHR ''a''"

text \<open>A guide of six sections, the first of them longer than the threshold.\<close>

definition guide6 :: "box list" where
  "guide6 = [plain long_text, plain ''Boss'', plain ''Map'', plain ''Items'', plain ''Go'',
             plain ''Skills'']"

text \<open>Two guides of two sections: the long section first, and the long section last.\<close>

definition long_then_boss :: "box list" where
  "long_then_boss = [plain long_text, plain ''Boss'']"

definition boss_then_long :: "box list" where
  "boss_then_long = [plain ''Boss'', plain long_text]"

section \<open>Properties\<close>

subsection \<open>The threshold test\<close>

lemma try_block_small:
  assumes "length (full_text (map section_text boxes)) \<le> threshold_chars"
  shows "try_block model faiss (Inr (Some boxes)) guide_id query s
         = (Inr (full_text (map section_text boxes)), s)"
  using assms by (simp add: try_block_def return_try_def)

lemma try_block_large:
  assumes "threshold_chars < length (full_text (map section_text boxes))"
  shows "try_block model faiss (Inr (Some boxes)) guide_id query s
         = (case faiss of None \<Rightarrow> (Inr faiss_missing, s)
            | Some fm \<Rightarrow> search_sections model fm (map section_text boxes) query s)"
  using assms by (simp add: try_block_def return_try_def split: option.splits)

lemma length_faiss_missing: "length faiss_missing = 77"
  by (simp add: faiss_missing_def)

subsection \<open>The search of the flat index\<close>

lemma search_sections_flat:
  assumes "model (world s) sections = (Inr embs, w1)"
    and "model w1 [query] = (Inr (q # qs), w2)"
  shows "search_sections model (faiss_flat l2sqr) sections query s =
    ((case collect_results sections (knn_L2sqr l2sqr embs q top_k) of
        Inl e \<Rightarrow> Inl e
      | Inr results \<Rightarrow> Inr (join ''\<newline>\<newline>---\<newline>\<newline>'' results)),
     s\<lparr>calls := calls s @ [Encode sections, IndexAdd (length embs), Encode [query],
                               IndexSearch top_k],
       world := w2\<rparr>)"
  using assms
  by (simp add: search_sections_def bind_try_def encode_def index_add_def index_search_def
      first_row_def collect_def return_try_def faiss_flat_def zip_map_fst_snd Let_def
      split: sum.splits)

lemma length_knn_L2sqr: "length (knn_L2sqr l2sqr xb q k) = k"
  by (simp add: knn_L2sqr_def Let_def)

lemma set_candidates:
  assumes "(d, i) \<in> set (zip (map f xb) (map int [0..<length xb]))"
  shows "0 \<le> i \<and> nat i < length xb \<and> d = f (xb ! nat i)"
proof -
  from assms obtain j where j: "j < length xb" "d = map f xb ! j" "i = map int [0..<length xb] ! j"
    by (auto simp: in_set_zip)
  then show ?thesis by simp
qed

lemma knn_L2sqr_cases:
  assumes "(d, i) \<in> set (knn_L2sqr l2sqr xb q k)"
  shows "(i = - 1 \<and> d = FLT_MAX) \<or>
         (0 \<le> i \<and> nat i < length xb \<and> d = l2sqr q (xb ! nat i) \<and> d < FLT_MAX)"
proof -
  let ?cand = "filter (\<lambda>(d, i). d < FLT_MAX) (zip (map (l2sqr q) xb) (map int [0..<length xb]))"
  from assms consider "(d, i) \<in> set (take k (sort_key fst ?cand))" | "(d, i) = (FLT_MAX, - 1)"
    by (auto simp: knn_L2sqr_def Let_def)
  then show ?thesis
  proof cases
    case 1
    then have "(d, i) \<in> set ?cand"
      using set_take_subset by fastforce
    then have "d < FLT_MAX" and "(d, i) \<in> set (zip (map (l2sqr q) xb) (map int [0..<length xb]))"
      by auto
    then show ?thesis using set_candidates [of d i "l2sqr q" xb] by simp
  next
    case 2
    then show ?thesis by simp
  qed
qed

lemma sorted_knn_L2sqr: "sorted (map fst (knn_L2sqr l2sqr xb q k))"
proof -
  let ?cand = "filter (\<lambda>(d, i). d < FLT_MAX) (zip (map (l2sqr q) xb) (map int [0..<length xb]))"
  let ?best = "take k (sort_key fst ?cand)"
  have "sorted (map fst (sort_key fst ?cand))"
    by (rule sorted_sort_key)
  then have "sorted (take k (map fst (sort_key fst ?cand)))"
    by (rule sorted_wrt_take)
  then have 1: "sorted (map fst ?best)"
    by (simp add: take_map)
  have "\<forall>p \<in> set ?best. fst p \<le> FLT_MAX"
  proof
    fix p assume "p \<in> set ?best"
    then have "p \<in> set ?cand" using set_take_subset by fastforce
    then show "fst p \<le> FLT_MAX" by auto
  qed
  with 1 show ?thesis
    by (auto simp: knn_L2sqr_def Let_def sorted_append)
qed

lemma insort_key_ranked:
  assumes "sorted_wrt ranked_before ys" and "\<forall>y \<in> set ys. snd x < snd y"
  shows "sorted_wrt ranked_before (insort_key fst x ys)"
  using assms
proof (induction ys)
  case Nil
  then show ?case by simp
next
  case (Cons y ys)
  show ?case
  proof (cases "fst x \<le> fst y")
    case True
    have "ranked_before x z" if "z \<in> set (y # ys)" for z
    proof -
      have "fst y \<le> fst z"
        using that Cons.prems(1) by (auto simp: ranked_before_def)
      moreover have "snd x < snd z"
        using that Cons.prems(2) by auto
      ultimately show ?thesis
        using True by (auto simp: ranked_before_def)
    qed
    with True Cons.prems(1) show ?thesis by simp
  next
    case False
    then have "ranked_before y x" by (simp add: ranked_before_def)
    with False Cons show ?thesis by (auto simp: set_insort_key)
  qed
qed

lemma sort_key_ranked:
  assumes "sorted_wrt (\<lambda>a b. snd a < snd b) xs"
  shows "sorted_wrt ranked_before (sort_key fst xs)"
  using assms
proof (induction xs)
  case Nil
  then show ?case by simp
next
  case (Cons x xs)
  then show ?case by (simp add: insort_key_ranked)
qed

lemma labels_increasing:
  "sorted_wrt (\<lambda>a b. snd a < snd b) (zip ds (map int [0..<n]))"
  by (auto simp: sorted_wrt_iff_nth_less)

lemma best_ranked:
  "sorted_wrt ranked_before
     (take k (sort_key fst (filter P (zip ds (map int [0..<n])))))"
  by (intro sorted_wrt_take sort_key_ranked sorted_wrt_filter labels_increasing)

lemma ties_in_padded:
  assumes "sorted_wrt ranked_before best" and "set pad \<subseteq> {(FLT_MAX, - 1)}"
    and "j1 < j2" and "j2 < length (best @ pad)"
    and "fst ((best @ pad) ! j1) = fst ((best @ pad) ! j2)"
    and "fst ((best @ pad) ! j2) < FLT_MAX"
  shows "snd ((best @ pad) ! j1) < snd ((best @ pad) ! j2)"
proof -
  have in_best: "j2 < length best"
  proof (rule ccontr)
    assume out: "\<not> j2 < length best"
    then have "(best @ pad) ! j2 = pad ! (j2 - length best)"
      by (simp add: nth_append)
    moreover have "pad ! (j2 - length best) \<in> set pad"
      using out assms(4) by (intro nth_mem) simp
    ultimately have "(best @ pad) ! j2 = (FLT_MAX, - 1)"
      using assms(2) by auto
    then show False using assms(6) by simp
  qed
  with assms(1,3) have "ranked_before (best ! j1) (best ! j2)"
    by (simp add: sorted_wrt_iff_nth_less)
  moreover have "(best @ pad) ! j1 = best ! j1" "(best @ pad) ! j2 = best ! j2"
    using in_best assms(3) by (simp_all add: nth_append)
  ultimately show ?thesis
    using assms(5) by (simp add: ranked_before_def)
qed

lemma knn_L2sqr_ties:
  assumes "j1 < j2" and "j2 < k"
    and "fst (knn_L2sqr l2sqr xb q k ! j1) = fst (knn_L2sqr l2sqr xb q k ! j2)"
    and "fst (knn_L2sqr l2sqr xb q k ! j2) < FLT_MAX"
  shows "snd (knn_L2sqr l2sqr xb q k ! j1) < snd (knn_L2sqr l2sqr xb q k ! j2)"
proof -
  define best where "best = take k (sort_key fst (filter (\<lambda>(d, i). d < FLT_MAX)
                 (zip (map (l2sqr q) xb) (map int [0..<length xb]))))"
  define pad where "pad = replicate (k - length best) (FLT_MAX, - 1 :: int)"
  have knn: "knn_L2sqr l2sqr xb q k = best @ pad"
    by (simp add: knn_L2sqr_def Let_def best_def pad_def)
  have 1: "sorted_wrt ranked_before best"
    unfolding best_def by (rule best_ranked)
  have 2: "set pad \<subseteq> {(FLT_MAX, - 1)}"
    by (auto simp: pad_def)
  have 3: "j2 < length (best @ pad)"
    using assms(2) length_knn_L2sqr [of l2sqr xb q k] knn by simp
  show ?thesis
    using assms(3,4) unfolding knn by (rule ties_in_padded [OF 1 2 assms(1) 3])
qed

subsection \<open>Indexing the sections and formatting the score\<close>

lemma getitem_nonneg:
  assumes "0 \<le> i" and "nat i < length xs"
  shows "getitem xs i = Inr (xs ! nat i)"
  using assms by (simp add: getitem_def)

lemma getitem_minus_one:
  assumes "xs \<noteq> []"
  shows "getitem xs (- 1) = Inr (last xs)"
proof -
  have pos: "Suc 0 \<le> length xs"
    using assms by (cases xs) simp_all
  then have "nat (int (length xs) + - 1) = length xs - 1"
    by simp
  then show ?thesis
    using assms pos by (simp add: getitem_def last_conv_nth del: add_uminus_conv_diff)
qed

lemma collect_results_found:
  assumes "\<forall>(d, i) \<in> set hits. i = - 1 \<or> (0 \<le> i \<and> nat i < length sections)"
    and "sections \<noteq> []"
  shows "collect_results sections hits =
         Inr (map (\<lambda>(d, i). result_entry d (if i < 0 then last sections else sections ! nat i))
                hits)"
  using assms(1)
proof (induction hits)
  case Nil
  then show ?case by simp
next
  case (Cons h hits)
  obtain d i where h: "h = (d, i)" by (cases h)
  from Cons.prems have "i = - 1 \<or> (0 \<le> i \<and> nat i < length sections)"
    by (simp add: h)
  then have "getitem sections i = Inr (if i < 0 then last sections else sections ! nat i)"
    using assms(2) by (auto simp: getitem_minus_one getitem_nonneg)
  moreover have "collect_results sections hits =
         Inr (map (\<lambda>(d, i). result_entry d (if i < 0 then last sections else sections ! nat i))
                hits)"
    using Cons by simp
  ultimately show ?case by (simp add: h)
qed

lemma round_half_even_near: "\<bar>of_int (round_half_even x) - x\<bar> \<le> 1 / 2"
proof -
  define r where "r = x - of_int \<lfloor>x\<rfloor>"
  have "of_int \<lfloor>x\<rfloor> \<le> x" and "x < of_int \<lfloor>x\<rfloor> + 1"
    by linarith+
  then have r: "0 \<le> r" "r < 1"
    by (simp_all add: r_def)
  have x: "x = of_int \<lfloor>x\<rfloor> + r"
    by (simp add: r_def)
  consider "r < 1 / 2" | "1 / 2 < r" | "r = 1 / 2"
    by linarith
  then show ?thesis
  proof cases
    case 1
    then have "round_half_even x = \<lfloor>x\<rfloor>"
      by (simp add: round_half_even_def Let_def r_def)
    then show ?thesis using r 1 x by simp
  next
    case 2
    then have "round_half_even x = \<lfloor>x\<rfloor> + 1"
      by (simp add: round_half_even_def Let_def r_def)
    then show ?thesis using r 2 x by simp
  next
    case 3
    then have "round_half_even x = \<lfloor>x\<rfloor> \<or> round_half_even x = \<lfloor>x\<rfloor> + 1"
      by (simp add: round_half_even_def Let_def r_def)
    then show ?thesis using r 3 x by auto
  qed
qed

lemma round_half_even_nonneg:
  assumes "0 \<le> x"
  shows "0 \<le> round_half_even x"
proof -
  have "0 \<le> \<lfloor>x\<rfloor>" using assms by simp
  then show ?thesis by (auto simp: round_half_even_def Let_def)
qed

lemma digit_in_digits: "k < 10 \<Longrightarrow> digit k \<in> set ''0123456789''"
  unfolding digit_def by (rule nth_mem) simp

lemma digits_are_digits: "set (digits n) \<subseteq> set ''0123456789''"
proof (induction n rule: digits.induct)
  case (1 n)
  show ?case
  proof (cases "n < 10")
    case True
    then show ?thesis
      using digit_in_digits [of n] by (subst digits.simps) simp
  next
    case False
    have "digit (n mod 10) \<in> set ''0123456789''"
      by (rule digit_in_digits) simp
    with False 1 show ?thesis
      by (subst digits.simps) simp
  qed
qed

lemma digits_not_empty: "digits n \<noteq> []"
  by (subst digits.simps) simp

lemma format_2f_shape:
  "\<exists>n. \<bar>of_nat n - \<bar>d\<bar> * 100\<bar> \<le> 1 / 2 \<and>
       format_2f d = (if d < 0 then ''-'' else '''') @ digits (n div 100) @ ''.''
                     @ [digit ((n mod 100) div 10), digit (n mod 10)]"
proof -
  let ?r = "round_half_even (\<bar>d\<bar> * 100)"
  have "0 \<le> ?r" by (rule round_half_even_nonneg) simp
  then have eq: "of_nat (nat ?r) = (of_int ?r :: rat)" by simp
  have "\<bar>of_nat (nat ?r) - \<bar>d\<bar> * 100\<bar> \<le> 1 / 2"
    unfolding eq by (rule round_half_even_near)
  then show ?thesis
    by (intro exI [of _ "nat ?r"]) (simp add: format_2f_def Let_def)
qed

subsection \<open>The whole tool in search mode\<close>

lemma full_text_Nil: "full_text [] = []"
  by (simp add: full_text_def)

lemma fetch_searches:
  assumes long: "threshold_chars < length (full_text sections)"
    and sections: "sections = map section_text boxes"
    and rows: "row_per_text model"
    and enc: "model (world s) sections = (Inr embs, w1)"
    and qenc: "model w1 [query] = (Inr (q # qs), w2)"
  shows "fetch_steam_guide model (Some (faiss_flat l2sqr)) (Inr (Some boxes)) guide_id query s =
    (Inr (join ''\<newline>\<newline>---\<newline>\<newline>''
       (map (\<lambda>(d, i). result_entry d (if i < 0 then last sections else sections ! nat i))
          (knn_L2sqr l2sqr embs q top_k))),
     s\<lparr>calls := calls s @ [Encode sections, IndexAdd (length sections), Encode [query],
                               IndexSearch top_k],
       world := w2\<rparr>)"
proof -
  have n: "length embs = length sections"
    using rows enc unfolding row_per_text_def by blast
  have ne: "sections \<noteq> []"
    using long by (auto simp: full_text_Nil)
  have "\<forall>(d, i) \<in> set (knn_L2sqr l2sqr embs q top_k).
          i = - 1 \<or> (0 \<le> i \<and> nat i < length sections)"
    using knn_L2sqr_cases [of _ _ l2sqr embs q top_k] n by fastforce
  then have "collect_results sections (knn_L2sqr l2sqr embs q top_k) =
    Inr (map (\<lambda>(d, i). result_entry d (if i < 0 then last sections else sections ! nat i))
          (knn_L2sqr l2sqr embs q top_k))"
    using ne by (rule collect_results_found)
  then have "search_sections model (faiss_flat l2sqr) sections query s =
    (Inr (join ''\<newline>\<newline>---\<newline>\<newline>''
       (map (\<lambda>(d, i). result_entry d (if i < 0 then last sections else sections ! nat i))
          (knn_L2sqr l2sqr embs q top_k))),
     s\<lparr>calls := calls s @ [Encode sections, IndexAdd (length sections), Encode [query],
                               IndexSearch top_k],
       world := w2\<rparr>)"
    using search_sections_flat [OF enc qenc, of l2sqr] n by simp
  then show ?thesis
    using long try_block_large [of boxes model "Some (faiss_flat l2sqr)" guide_id query s]
    by (simp add: fetch_steam_guide_def sections)
qed

text \<open>What the handler makes of the outcome of the \<open>try\<close> block.\<close>

lemma fst_fetch_steam_guide:
  "fst (fetch_steam_guide model faiss page guide_id query s) =
     (case fst (try_block model faiss page guide_id query s) of
        Inl (Exception e) \<Rightarrow> Inr (''Error fetching guide: '' @ e)
      | Inl (BaseException c) \<Rightarrow> Inl (BaseException c)
      | Inr answer \<Rightarrow> Inr answer)"
  by (simp add: fetch_steam_guide_def split: prod.splits sum.splits exn.splits)

subsection \<open>Guides with at least \<open>top_k\<close> sections\<close>

text \<open>
  When the index holds at least \<open>k\<close> vectors, all at a distance below the largest number, the
  search returns no filler: every pair is a position with the distance of its vector, the
  distances ascend and no position comes twice.
\<close>

lemma knn_L2sqr_enough:
  assumes "k \<le> length xb" and "\<forall>v \<in> set xb. l2sqr q v < FLT_MAX"
  shows "knn_L2sqr l2sqr xb q k
         = take k (sort_key fst (zip (map (l2sqr q) xb) (map int [0..<length xb])))"
proof -
  have "\<forall>p \<in> set (zip (map (l2sqr q) xb) (map int [0..<length xb])). fst p < FLT_MAX"
    using assms(2) by (auto simp: in_set_zip)
  then have "filter (\<lambda>(d, i). d < FLT_MAX) (zip (map (l2sqr q) xb) (map int [0..<length xb]))
             = zip (map (l2sqr q) xb) (map int [0..<length xb])"
    by (intro filter_True) auto
  then show ?thesis
    using assms(1) by (simp add: knn_L2sqr_def Let_def)
qed

lemma knn_L2sqr_enough_positions:
  assumes "k \<le> length xb" and "\<forall>v \<in> set xb. l2sqr q v < FLT_MAX"
    and "(d, i) \<in> set (knn_L2sqr l2sqr xb q k)"
  shows "0 \<le> i \<and> nat i < length xb \<and> d = l2sqr q (xb ! nat i)"
proof -
  have "(d, i) \<in> set (sort_key fst (zip (map (l2sqr q) xb) (map int [0..<length xb])))"
    using assms(3) set_take_subset
    unfolding knn_L2sqr_enough [of k xb l2sqr q, OF assms(1,2)] by fastforce
  then have "(d, i) \<in> set (zip (map (l2sqr q) xb) (map int [0..<length xb]))"
    by simp
  then show ?thesis
    using set_candidates [of d i "l2sqr q" xb] by simp
qed

lemma knn_L2sqr_enough_distinct:
  assumes "k \<le> length xb" and "\<forall>v \<in> set xb. l2sqr q v < FLT_MAX"
  shows "distinct (map snd (knn_L2sqr l2sqr xb q k))"
proof -
  let ?z = "zip (map (l2sqr q) xb) (map int [0..<length xb])"
  have labels: "distinct (map int [0..<length xb])"
    by (simp add: distinct_map inj_on_def)
  have z: "distinct ?z"
    using labels by (rule distinct_zipI2)
  have "inj_on snd (set ?z)"
  proof (rule inj_onI)
    fix a b assume a: "a \<in> set ?z" and b: "b \<in> set ?z" and same: "snd a = snd b"
    have "fst a = l2sqr q (xb ! nat (snd a))"
      using a set_candidates [of "fst a" "snd a" "l2sqr q" xb] by simp
    moreover have "fst b = l2sqr q (xb ! nat (snd b))"
      using b set_candidates [of "fst b" "snd b" "l2sqr q" xb] by simp
    ultimately show "a = b"
      using same by (simp add: prod_eq_iff)
  qed
  with z have "distinct (map snd (sort_key fst ?z))"
    by (simp only: distinct_map distinct_sort set_sort simp_thms)
  then have "distinct (take k (map snd (sort_key fst ?z)))"
    by (rule distinct_take)
  then show ?thesis
    unfolding knn_L2sqr_enough [of k xb l2sqr q, OF assms] by (simp add: take_map)
qed

text \<open>
  So for a guide of at least \<open>top_k\<close> sections the answer has \<open>top_k\<close> entries, each the score
  line of the distance of a section followed by the text of that section, nearest first and
  no section twice.
\<close>

lemma enough_sections_every_entry_is_a_section:
  assumes long: "threshold_chars < length (full_text sections)"
    and sections: "sections = map section_text boxes"
    and rows: "row_per_text model"
    and enc: "model (world s) sections = (Inr embs, w1)"
    and qenc: "model w1 [query] = (Inr (q # qs), w2)"
    and enough: "top_k \<le> length sections"
    and finite: "\<forall>v \<in> set embs. l2sqr q v < FLT_MAX"
    and hits: "hits = knn_L2sqr l2sqr embs q top_k"
  shows "fst (fetch_steam_guide model (Some (faiss_flat l2sqr)) (Inr (Some boxes)) guide_id
               query s)
         = Inr (join ''\<newline>\<newline>---\<newline>\<newline>''
             (map (\<lambda>(d, i). result_entry (l2sqr q (embs ! nat i)) (sections ! nat i)) hits))"
    and "length hits = min top_k (length sections)"
    and "\<forall>(d, i) \<in> set hits. 0 \<le> i \<and> nat i < length sections"
    and "sorted (map fst hits)"
    and "distinct (map snd hits)"
proof -
  have n: "length embs = length sections"
    using rows enc unfolding row_per_text_def by blast
  have k: "top_k \<le> length embs"
    using enough n by simp
  have position: "0 \<le> i \<and> nat i < length sections \<and> d = l2sqr q (embs ! nat i)"
    if "(d, i) \<in> set hits" for d i
    using knn_L2sqr_enough_positions [of top_k embs l2sqr q d i, OF k finite] that n hits
    by simp
  then show "\<forall>(d, i) \<in> set hits. 0 \<le> i \<and> nat i < length sections"
    by blast
  have same: "map (\<lambda>(d, i). result_entry d (if i < 0 then last sections
                                                   else sections ! nat i)) hits
        = map (\<lambda>(d, i). result_entry (l2sqr q (embs ! nat i)) (sections ! nat i)) hits"
  proof (rule map_cong)
    fix p assume "p \<in> set hits"
    then have "0 \<le> snd p \<and> fst p = l2sqr q (embs ! nat (snd p))"
      using position [of "fst p" "snd p"] by simp
    then show "(case p of (d, i) \<Rightarrow>
                 result_entry d (if i < 0 then last sections else sections ! nat i))
             = (case p of (d, i) \<Rightarrow>
                 result_entry (l2sqr q (embs ! nat i)) (sections ! nat i))"
      by (simp add: case_prod_unfold)
  qed simp
  have "fst (fetch_steam_guide model (Some (faiss_flat l2sqr)) (Inr (Some boxes)) guide_id
               query s)
         = Inr (join ''\<newline>\<newline>---\<newline>\<newline>''
             (map (\<lambda>(d, i). result_entry d (if i < 0 then last sections
                                                   else sections ! nat i)) hits))"
    using fetch_searches [OF long sections rows enc qenc, of l2sqr guide_id]
    by (simp add: hits)
  then show "fst (fetch_steam_guide model (Some (faiss_flat l2sqr)) (Inr (Some boxes)) guide_id
               query s)
         = Inr (join ''\<newline>\<newline>---\<newline>\<newline>''
             (map (\<lambda>(d, i). result_entry (l2sqr q (embs ! nat i)) (sections ! nat i)) hits))"
    by (simp only: same)
  show "length hits = min top_k (length sections)"
    using enough by (simp add: hits length_knn_L2sqr)
  show "sorted (map fst hits)"
    unfolding hits by (rule sorted_knn_L2sqr)
  show "distinct (map snd hits)"
    unfolding hits using k finite by (rule knn_L2sqr_enough_distinct)
qed

subsection \<open>The embedding model and the state\<close>

lemma search_sections_deterministic:
  assumes "deterministic model"
  shows "fst (search_sections model fm sections query s')
         = fst (search_sections model fm sections query s)"
proof -
  obtain r1 w1 where a: "model (world s) sections = (r1, w1)"
    by (cases "model (world s) sections")
  obtain r1' w1' where a': "model (world s') sections = (r1', w1')"
    by (cases "model (world s') sections")
  have r1: "r1' = r1"
    using assms a a' unfolding deterministic_def by (metis fst_conv)
  obtain r2 w2 where b: "model w1 [query] = (r2, w2)"
    by (cases "model w1 [query]")
  obtain r2' w2' where b': "model w1' [query] = (r2', w2')"
    by (cases "model w1' [query]")
  have r2: "r2' = r2"
    using assms b b' unfolding deterministic_def by (metis fst_conv)
  show ?thesis
    using a a' b b' r1 r2
    by (simp add: search_sections_def bind_try_def encode_def index_add_def index_search_def
        first_row_def collect_def return_try_def split: sum.splits list.splits prod.splits)
qed

lemma try_block_deterministic:
  assumes "deterministic model"
  shows "fst (try_block model faiss page guide_id query s')
         = fst (try_block model faiss page guide_id query s)"
proof (cases page)
  case (Inl e)
  then show ?thesis by (simp add: try_block_def)
next
  case (Inr container)
  show ?thesis
  proof (cases container)
    case None
    with Inr show ?thesis by (simp add: try_block_def return_try_def)
  next
    case (Some boxes)
    show ?thesis
    proof (cases faiss)
      case None
      with Inr Some show ?thesis
        by (simp add: try_block_def return_try_def Let_def)
    next
      case (Some fm)
      with Inr \<open>container = Some boxes\<close> show ?thesis
        using search_sections_deterministic [OF assms, of fm "map section_text boxes" query s' s]
        by (simp add: try_block_def return_try_def Let_def)
    qed
  qed
qed


subsection \<open>Facts about the small instance\<close>

lemma length_long_text: "length long_text = 20001"
  by (simp add: long_text_def)

lemma section_text_plain: "section_text (plain text) = text"
  by (simp add: section_text_def plain_def)

lemma sections_guide6:
  "map section_text guide6 = [long_text, ''Boss'', ''Map'', ''Items'', ''Go'', ''Skills'']"
  by (simp add: guide6_def section_text_plain)

lemma guide6_long: "threshold_chars < length (full_text (map section_text guide6))"
  by (simp add: sections_guide6 full_text_def length_long_text threshold_chars_def)

lemma row_per_text_length_model: "row_per_text length_model"
  by (auto simp: row_per_text_def length_model_def)

lemma deterministic_length_model: "deterministic length_model"
  by (simp add: deterministic_def length_model_def)

lemma encode_guide6:
  "length_model (world start) (map section_text guide6) = (Inr [64, 4, 3, 5, 2, 6], 1)"
  by (simp add: sections_guide6 length_model_def length_long_text start_def)

lemma encode_boss: "length_model 1 [''boss''] = (Inr [4], 2)"
  by (simp add: length_model_def)


lemma knn_guide6:
  "knn_L2sqr sq_diff [64, 4, 3, 5, 2, 6] 4 top_k = [(0, 1), (1, 2), (1, 3), (4, 4), (4, 5)]"
  by code_simp

lemma format_2f_examples:
  "format_2f 0 = ''0.00''" "format_2f 1 = ''1.00''" "format_2f 4 = ''4.00''"
  "format_2f 3600 = ''3600.00''"
  "format_2f FLT_MAX = ''340282346638528859811704183484516925440.00''"
  by (simp_all add: format_2f_def round_half_even_def digits.simps digit_def FLT_MAX_def
      Let_def)

lemma one_section_long: "threshold_chars < length (full_text (map section_text [plain long_text]))"
  by (simp add: section_text_plain full_text_def length_long_text threshold_chars_def)

lemma encode_one_section:
  "length_model (world start) (map section_text [plain long_text]) = (Inr [64], 1)"
  by (simp add: section_text_plain length_model_def length_long_text start_def)

lemma knn_one_section:
  "knn_L2sqr sq_diff [64] 4 top_k
     = [(3600, 0), (FLT_MAX, - 1), (FLT_MAX, - 1), (FLT_MAX, - 1), (FLT_MAX, - 1)]"
  by code_simp

lemma sections_long_then_boss: "map section_text long_then_boss = [long_text, ''Boss'']"
  by (simp add: long_then_boss_def section_text_plain)

lemma long_then_boss_long:
  "threshold_chars < length (full_text (map section_text long_then_boss))"
  by (simp add: sections_long_then_boss full_text_def length_long_text threshold_chars_def)

lemma encode_long_then_boss:
  "length_model (world start) (map section_text long_then_boss) = (Inr [64, 4], 1)"
  by (simp add: sections_long_then_boss length_model_def length_long_text start_def)

lemma knn_long_then_boss:
  "knn_L2sqr sq_diff [64, 4] 4 top_k
     = [(0, 1), (3600, 0), (FLT_MAX, - 1), (FLT_MAX, - 1), (FLT_MAX, - 1)]"
  by code_simp

lemma sections_boss_then_long: "map section_text boss_then_long = [''Boss'', long_text]"
  by (simp add: boss_then_long_def section_text_plain)

lemma boss_then_long_long:
  "threshold_chars < length (full_text (map section_text boss_then_long))"
  by (simp add: sections_boss_then_long full_text_def length_long_text threshold_chars_def)

lemma encode_boss_then_long:
  "length_model (world start) (map section_text boss_then_long) = (Inr [4, 64], 1)"
  by (simp add: sections_boss_then_long length_model_def length_long_text start_def)

lemma knn_boss_then_long:
  "knn_L2sqr sq_diff [4, 64] 4 top_k
     = [(0, 0), (3600, 1), (FLT_MAX, - 1), (FLT_MAX, - 1), (FLT_MAX, - 1)]"
  by code_simp

section \<open>The claims\<close>

subsection \<open>Short guides\<close>

text \<open>
  C1. When the sections of the page, each the title line (if there is a title) followed by
  the body, joined by blank lines, have at most \<open>threshold_chars\<close> = 20000 characters, the
  tool returns exactly that text, whatever the query, the embedding model and the index are,
  and the state is unchanged: no call of the embedding model or of the index is made.
\<close>

theorem small_guide_returned_whole:
  assumes "length (full_text (map section_text boxes)) \<le> threshold_chars"
  shows "threshold_chars = 20000 \<and>
         fetch_steam_guide model faiss (Inr (Some boxes)) guide_id query s
         = (Inr (full_text (map section_text boxes)), s)"
  using assms by (simp add: fetch_steam_guide_def try_block_small threshold_chars_def)

theorem small_guide_returned_whole_witness:
  "length (full_text (map section_text
      [\<lparr>subSectionTitle = Some ''Intro'', subSectionDesc = Some ''Welcome.''\<rparr>,
       \<lparr>subSectionTitle = None, subSectionDesc = Some ''Boss strategy''\<rparr>,
       \<lparr>subSectionTitle = Some ''End'', subSectionDesc = None\<rparr>])) \<le> threshold_chars
   \<and> fetch_steam_guide length_model (Some (faiss_flat sq_diff)) (Inr (Some
      [\<lparr>subSectionTitle = Some ''Intro'', subSectionDesc = Some ''Welcome.''\<rparr>,
       \<lparr>subSectionTitle = None, subSectionDesc = Some ''Boss strategy''\<rparr>,
       \<lparr>subSectionTitle = Some ''End'', subSectionDesc = None\<rparr>])) ''42'' ''boss'' start
     = (Inr ''Intro\<newline>Welcome.\<newline>\<newline>Boss strategy\<newline>\<newline>End\<newline>'', start)"
  using small_guide_returned_whole [of
      "[\<lparr>subSectionTitle = Some ''Intro'', subSectionDesc = Some ''Welcome.''\<rparr>,
       \<lparr>subSectionTitle = None, subSectionDesc = Some ''Boss strategy''\<rparr>,
       \<lparr>subSectionTitle = Some ''End'', subSectionDesc = None\<rparr>]"
      length_model "Some (faiss_flat sq_diff)" "''42''" "''boss''" start]
  by (simp add: full_text_def section_text_def threshold_chars_def)

text \<open>
  C10. A short guide is returned whole also when \<open>faiss\<close> is missing: the result without the
  module is the full text, and it is the result with any module, since the module is looked at
  only after the threshold test.
\<close>

theorem small_guide_needs_no_faiss:
  fixes fm :: "('v, 'i) faiss_module"
  assumes "length (full_text (map section_text boxes)) \<le> threshold_chars"
  shows "fetch_steam_guide model (None :: ('v, 'i) faiss_module option) (Inr (Some boxes))
           guide_id query s
           = (Inr (full_text (map section_text boxes)), s)
         \<and> fetch_steam_guide model (Some fm) (Inr (Some boxes)) guide_id query s
           = fetch_steam_guide model None (Inr (Some boxes)) guide_id query s"
  using assms by (simp add: fetch_steam_guide_def try_block_small)

theorem small_guide_needs_no_faiss_witness:
  "length (full_text (map section_text [plain ''Use fire.'', plain ''Then run.'']))
     \<le> threshold_chars
   \<and> fetch_steam_guide failing_model (None :: (rat, rat list) faiss_module option)
        (Inr (Some [plain ''Use fire.'', plain ''Then run.''])) ''7'' ''boss'' start
     = (Inr ''Use fire.\<newline>\<newline>Then run.'', start)"
  using small_guide_needs_no_faiss [where boxes = "[plain ''Use fire.'', plain ''Then run.'']"
      and model = failing_model and guide_id = "''7''" and query = "''boss''" and s = start
      and fm = "faiss_flat sq_diff", THEN conjunct1]
  by (simp add: full_text_def section_text_plain threshold_chars_def)

text \<open>
  C4. A page whose container holds no section box is not reported as having no sections: the
  joined text is empty, passes the threshold test and is returned, so the answer is the empty
  string. Only a page without the container gets the message that no subsections were found.
\<close>

theorem no_boxes_empty_answer:
  "fetch_steam_guide model faiss (Inr (Some [])) guide_id query s = (Inr '''', s)"
  by (simp add: fetch_steam_guide_def try_block_def full_text_def return_try_def)

subsection \<open>Long guides without the index\<close>

text \<open>
  C3. When the text is longer than the threshold and \<open>faiss\<close> is missing, the tool returns the
  message that the library is required; the message is neither the full text nor empty, and
  no call of the embedding model is made.
\<close>

theorem missing_faiss_reported:
  assumes "threshold_chars < length (full_text (map section_text boxes))"
  shows "fetch_steam_guide model (None :: ('v, 'i) faiss_module option) (Inr (Some boxes))
           guide_id query s = (Inr faiss_missing, s)
         \<and> faiss_missing \<noteq> full_text (map section_text boxes)
         \<and> faiss_missing \<noteq> ''''"
proof -
  have "length faiss_missing \<noteq> length (full_text (map section_text boxes))"
    using assms by (simp add: length_faiss_missing threshold_chars_def)
  then have "faiss_missing \<noteq> full_text (map section_text boxes)"
    by auto
  moreover have "faiss_missing \<noteq> ''''"
    by (simp add: faiss_missing_def)
  ultimately show ?thesis
    using assms by (simp add: fetch_steam_guide_def try_block_large)
qed

theorem missing_faiss_reported_witness:
  "threshold_chars < length (full_text (map section_text [plain long_text]))
   \<and> fetch_steam_guide length_model (None :: (rat, rat list) faiss_module option)
        (Inr (Some [plain long_text])) ''42'' ''boss'' start
     = (Inr ''Error: FAISS library is required for large-guide search but is not installed.'',
        start)"
  using missing_faiss_reported [where boxes = "[plain long_text]" and model = length_model
      and guide_id = "''42''" and query = "''boss''" and s = start and ?'i = "rat list"]
  by (simp add: full_text_def section_text_plain length_long_text threshold_chars_def
      faiss_missing_def)

subsection \<open>Long guides with fewer than \<open>top_k\<close> sections\<close>

text \<open>
  The search is always asked for \<open>top_k\<close> = 5 neighbours. When the guide has fewer sections,
  the index fills the rows up with the label \<open>-1\<close> and the largest single-precision number,
  and the list of sections reads the label \<open>-1\<close> as its last element. The next three
  statements are the answers of the tool on three such guides.
\<close>

text \<open>
  C2. For a guide of one section that is longer than the threshold, the answer has five
  entries, the section itself and four more copies of it with the largest single-precision
  number as score, where the smaller of \<open>top_k\<close> and the number of sections is one.
\<close>

theorem one_section_five_entries:
  "fst (fetch_steam_guide length_model (Some (faiss_flat sq_diff))
          (Inr (Some [plain long_text])) ''42'' ''boss'' start)
   = Inr (join ''\<newline>\<newline>---\<newline>\<newline>''
       [''[Score: 3600.00]\<newline>'' @ long_text,
        ''[Score: 340282346638528859811704183484516925440.00]\<newline>'' @ long_text,
        ''[Score: 340282346638528859811704183484516925440.00]\<newline>'' @ long_text,
        ''[Score: 340282346638528859811704183484516925440.00]\<newline>'' @ long_text,
        ''[Score: 340282346638528859811704183484516925440.00]\<newline>'' @ long_text])
   \<and> min top_k (length [plain long_text]) = 1"
proof -
  have "min top_k (length [plain long_text]) = 1"
    by (simp add: top_k_def)
  then show ?thesis
    using fetch_searches [OF one_section_long refl row_per_text_length_model
        encode_one_section encode_boss, of sq_diff "''42''"]
    by (simp add: knn_one_section section_text_plain result_entry_def format_2f_examples)
qed

text \<open>
  C5. For the guide of two sections whose last section, \<open>Boss\<close>, is at distance 0 from the
  query and whose first section is at distance 3600, the answer shows \<open>Boss\<close> with score 0.00,
  the first section with score 3600.00, and then \<open>Boss\<close> three more times with the largest
  single-precision number as score: these three entries are not annotated with the distance
  of the section they show, and the nearest section stands after a farther one.
\<close>

theorem nearest_section_again_with_largest_score:
  "fst (fetch_steam_guide length_model (Some (faiss_flat sq_diff))
          (Inr (Some long_then_boss)) ''42'' ''boss'' start)
   = Inr (join ''\<newline>\<newline>---\<newline>\<newline>''
       [''[Score: 0.00]\<newline>Boss'',
        ''[Score: 3600.00]\<newline>'' @ long_text,
        ''[Score: 340282346638528859811704183484516925440.00]\<newline>Boss'',
        ''[Score: 340282346638528859811704183484516925440.00]\<newline>Boss'',
        ''[Score: 340282346638528859811704183484516925440.00]\<newline>Boss''])
   \<and> length_model (world start) (map section_text long_then_boss) = (Inr [64, 4], 1)
   \<and> length_model 1 [''boss''] = (Inr [4], 2)
   \<and> sq_diff 4 4 = 0 \<and> sq_diff 4 64 = 3600"
proof -
  have "sq_diff 4 4 = 0 \<and> sq_diff 4 64 = 3600"
    by (simp add: sq_diff_def)
  then show ?thesis
    using fetch_searches [OF long_then_boss_long refl row_per_text_length_model
        encode_long_then_boss encode_boss, of sq_diff "''42''"]
      encode_long_then_boss encode_boss
    by (simp add: knn_long_then_boss sections_long_then_boss result_entry_def
        format_2f_examples)
qed

text \<open>
  C8. For the guide of two sections \<open>Boss\<close> and a long one, the index holds two vectors and
  returns the positions 0 and 1 and three times the label \<open>-1\<close>, which is no position of the
  guide. The answer has an entry for each of the five: the three entries for the label \<open>-1\<close>
  show the text of section 1, which the search already returned at distance 3600, under the
  score of the filler.
\<close>

theorem filler_label_shows_last_section:
  "fst (fetch_steam_guide length_model (Some (faiss_flat sq_diff))
          (Inr (Some boss_then_long)) ''42'' ''boss'' start)
   = Inr (join ''\<newline>\<newline>---\<newline>\<newline>''
       [''[Score: 0.00]\<newline>Boss'',
        ''[Score: 3600.00]\<newline>'' @ long_text,
        ''[Score: 340282346638528859811704183484516925440.00]\<newline>'' @ long_text,
        ''[Score: 340282346638528859811704183484516925440.00]\<newline>'' @ long_text,
        ''[Score: 340282346638528859811704183484516925440.00]\<newline>'' @ long_text])
   \<and> knn_L2sqr sq_diff [4, 64] 4 top_k
     = [(0, 0), (3600, 1), (FLT_MAX, - 1), (FLT_MAX, - 1), (FLT_MAX, - 1)]
   \<and> length (map section_text boss_then_long) = 2
   \<and> getitem (map section_text boss_then_long) (- 1) = Inr long_text
   \<and> getitem (map section_text boss_then_long) 1 = Inr long_text"
proof -
  have "getitem (map section_text boss_then_long) (- 1) = Inr long_text
      \<and> getitem (map section_text boss_then_long) 1 = Inr long_text"
    by (simp add: sections_boss_then_long getitem_def)
  then show ?thesis
    using fetch_searches [OF boss_then_long_long refl row_per_text_length_model
        encode_boss_then_long encode_boss, of sq_diff "''42''"]
    by (simp add: knn_boss_then_long sections_boss_then_long result_entry_def
        format_2f_examples)
qed

subsection \<open>The order of sections at the same distance\<close>

text \<open>
  C7. In search mode, when two entries of the answer stand for sections (their label is not
  the filler \<open>-1\<close>) and have the same distance, the one that comes first in the answer is
  the section with the smaller position in the guide.
\<close>

theorem equal_distance_keeps_section_order:
  assumes "threshold_chars < length (full_text sections)"
    and "sections = map section_text boxes"
    and "row_per_text model"
    and "model (world s) sections = (Inr embs, w1)"
    and "model w1 [query] = (Inr (q # qs), w2)"
    and "hits = knn_L2sqr l2sqr embs q top_k"
    and "j1 < j2" and "j2 < top_k"
    and "fst (hits ! j1) = fst (hits ! j2)"
    and "0 \<le> snd (hits ! j2)"
  shows "fst (fetch_steam_guide model (Some (faiss_flat l2sqr)) (Inr (Some boxes)) guide_id
               query s)
         = Inr (join ''\<newline>\<newline>---\<newline>\<newline>''
             (map (\<lambda>(d, i). result_entry d (if i < 0 then last sections else sections ! nat i))
                hits))
       \<and> 0 \<le> snd (hits ! j1) \<and> snd (hits ! j1) < snd (hits ! j2)
       \<and> nat (snd (hits ! j2)) < length sections"
proof -
  have len: "length hits = top_k"
    by (simp add: assms(6) length_knn_L2sqr)
  have n: "length embs = length sections"
    using assms(3,4) unfolding row_per_text_def by blast
  have "hits ! j2 \<in> set hits" and "hits ! j1 \<in> set hits"
    using assms(7,8) len by simp_all
  then have c2: "(fst (hits ! j2), snd (hits ! j2)) \<in> set (knn_L2sqr l2sqr embs q top_k)"
    and c1: "(fst (hits ! j1), snd (hits ! j1)) \<in> set (knn_L2sqr l2sqr embs q top_k)"
    by (simp_all add: assms(6))
  have below: "fst (hits ! j2) < FLT_MAX" and inside: "nat (snd (hits ! j2)) < length sections"
    using knn_L2sqr_cases [OF c2] assms(10) n by auto
  have "0 \<le> snd (hits ! j1)"
    using knn_L2sqr_cases [OF c1] below assms(9) by auto
  moreover have "snd (hits ! j1) < snd (hits ! j2)"
    using knn_L2sqr_ties [of j1 j2 top_k l2sqr embs q] assms(6-9) below by simp
  ultimately show ?thesis
    using fetch_searches [OF assms(1-5), of l2sqr guide_id] inside by (simp add: assms(6))
qed

theorem equal_distance_keeps_section_order_witness:
  "fst (knn_L2sqr sq_diff [64, 4, 3, 5, 2, 6] 4 top_k ! 1)
     = fst (knn_L2sqr sq_diff [64, 4, 3, 5, 2, 6] 4 top_k ! 2)
   \<and> snd (knn_L2sqr sq_diff [64, 4, 3, 5, 2, 6] 4 top_k ! 1) = 2
   \<and> snd (knn_L2sqr sq_diff [64, 4, 3, 5, 2, 6] 4 top_k ! 2) = 3
   \<and> snd (knn_L2sqr sq_diff [64, 4, 3, 5, 2, 6] 4 top_k ! 1)
     < snd (knn_L2sqr sq_diff [64, 4, 3, 5, 2, 6] 4 top_k ! 2)
   \<and> fst (fetch_steam_guide length_model (Some (faiss_flat sq_diff)) (Inr (Some guide6)) ''42''
          ''boss'' start)
   = Inr ''[Score: 0.00]\<newline>Boss\<newline>\<newline>---\<newline>\<newline>[Score: 1.00]\<newline>Map\<newline>\<newline>---\<newline>\<newline>[Score: 1.00]\<newline>Items\<newline>\<newline>---\<newline>\<newline>[Score: 4.00]\<newline>Go\<newline>\<newline>---\<newline>\<newline>[Score: 4.00]\<newline>Skills''"
proof -
  have j: "(1::nat) < 2" "(2::nat) < top_k"
    by (simp_all add: top_k_def)
  have tie: "fst (knn_L2sqr sq_diff [64, 4, 3, 5, 2, 6] 4 top_k ! 1)
     = fst (knn_L2sqr sq_diff [64, 4, 3, 5, 2, 6] 4 top_k ! 2)"
    by (simp add: knn_guide6)
  have label: "0 \<le> snd (knn_L2sqr sq_diff [64, 4, 3, 5, 2, 6] 4 top_k ! 2)"
    by (simp add: knn_guide6)
  show ?thesis
    using equal_distance_keeps_section_order [OF guide6_long refl row_per_text_length_model
        encode_guide6 encode_boss refl j tie label, of "''42''"]
    by (simp add: knn_guide6 sections_guide6 result_entry_def format_2f_examples)
qed

subsection \<open>Repeated calls\<close>

text \<open>
  C6. With a deterministic embedding model, the answer for a page and a query does not depend
  on the state the call starts in; in particular a second call, started in the state the first
  one left, returns the same string as the first.
\<close>

theorem same_inputs_same_answer:
  assumes "deterministic model"
  shows "fst (fetch_steam_guide model faiss page guide_id query s')
           = fst (fetch_steam_guide model faiss page guide_id query s)
       \<and> fst (fetch_steam_guide model faiss page guide_id query
                (snd (fetch_steam_guide model faiss page guide_id query s)))
           = fst (fetch_steam_guide model faiss page guide_id query s)"
proof -
  have again: "fst (fetch_steam_guide model faiss page guide_id query t)
        = fst (fetch_steam_guide model faiss page guide_id query s)" for t
    unfolding fst_fetch_steam_guide
    using try_block_deterministic [OF assms, of faiss page guide_id query t s]
    by (rule arg_cong)
  show ?thesis
    using again [of s']
      again [of "snd (fetch_steam_guide model faiss page guide_id query s)"]
    by (rule conjI)
qed

theorem same_inputs_same_answer_witness:
  "deterministic length_model
   \<and> world (snd (fetch_steam_guide length_model (Some (faiss_flat sq_diff))
                     (Inr (Some guide6)) ''42'' ''boss'' start)) \<noteq> world start
   \<and> fst (fetch_steam_guide length_model (Some (faiss_flat sq_diff)) (Inr (Some guide6)) ''42''
            ''boss''
            (snd (fetch_steam_guide length_model (Some (faiss_flat sq_diff))
                    (Inr (Some guide6)) ''42'' ''boss'' start)))
     = fst (fetch_steam_guide length_model (Some (faiss_flat sq_diff)) (Inr (Some guide6)) ''42''
            ''boss'' start)"
  using same_inputs_same_answer [OF deterministic_length_model,
      where faiss = "Some (faiss_flat sq_diff)" and page = "Inr (Some guide6)"
        and guide_id = "''42''" and query = "''boss''" and s = start, THEN conjunct2]
    fetch_searches [OF guide6_long refl row_per_text_length_model encode_guide6 encode_boss,
      of sq_diff "''42''"]
    deterministic_length_model
  by (simp add: start_def)

subsection \<open>Exceptions\<close>




end
